theory Spec2Isabelle
  imports Main "HOL-Library.Word" "HOL-Library.Sublist"
begin

unbundle bit_operations_syntax

section \<open>The script \<open>scripts/clip2_process.py\<close>\<close>

text \<open>
  The script is a command-line program: it imports its libraries, reads one path from
  \<open>sys.argv\<close>, calls \<open>process_image\<close> and prints the result with
  \<open>json.dumps\<close>. Everything it does beyond string formatting happens in
  libraries (torch, PIL, transformers) and in the interpreter (imports, uncaught
  exceptions, \<open>print\<close>). The libraries are a parameter of the model: a record
  \<open>env\<close> of functions that either raise or return. The interpreter's part that the
  script relies on (\<open>json.dumps\<close> with its default options, \<open>print\<close>,
  the exception class caught by \<open>except Exception\<close>) is written out.
\<close>

subsection \<open>Python values\<close>

text \<open>
  A Python \<open>str\<close> is a sequence of Unicode code points. Literals of the script are
  ASCII and are written with \<open>lit\<close>.
\<close>

type_synonym pystr = "nat list"

definition lit :: "string \<Rightarrow> pystr" where
  "lit s = map of_char s"

text \<open>
  A Python \<open>float\<close> is an IEEE 754 binary64 value, modelled by its 64 bits. The
  script writes the literal \<open>0.0\<close> and passes floats to \<open>json.dumps\<close>, which
  tells NaN and the two infinities from the finite values.
\<close>

type_synonym pyfloat = "64 word"

definition float_zero :: pyfloat where
  "float_zero = 0"

definition float_inf :: pyfloat where
  "float_inf = 0x7FF0000000000000"

definition float_neginf :: pyfloat where
  "float_neginf = 0xFFF0000000000000"

definition float_is_nan :: "pyfloat \<Rightarrow> bool" where
  "float_is_nan x \<longleftrightarrow> x AND 0x7FFFFFFFFFFFFFFF > 0x7FF0000000000000"

definition float_is_finite :: "pyfloat \<Rightarrow> bool" where
  "float_is_finite x \<longleftrightarrow> \<not> float_is_nan x \<and> x \<noteq> float_inf \<and> x \<noteq> float_neginf"

text \<open>
  The values stored in the dictionaries the script builds: a string or a list of floats.
  A dictionary keeps its keys in insertion order, so it is an association list.
\<close>

datatype pyval = PStr pystr | PList "pyfloat list"

type_synonym document = "(pystr \<times> pyval) list"

text \<open>
  Exceptions, by the classes the script distinguishes: \<open>ImportError\<close> (caught at
  line 15; it is a subclass of \<open>Exception\<close>), any other instance of
  \<open>Exception\<close> (caught at line 55), and the instances of \<open>BaseException\<close>
  that are not instances of \<open>Exception\<close> (\<open>KeyboardInterrupt\<close>,
  \<open>SystemExit\<close>, \<open>GeneratorExit\<close>), which neither handler catches. Each carries
  the text \<open>str(e)\<close>.
\<close>

datatype exn = ImportError pystr | OtherException pystr | SystemExiting pystr

fun is_ImportError :: "exn \<Rightarrow> bool" where
  "is_ImportError (ImportError m) = True"
| "is_ImportError (OtherException m) = False"
| "is_ImportError (SystemExiting m) = False"

fun is_Exception :: "exn \<Rightarrow> bool" where
  "is_Exception (ImportError m) = True"
| "is_Exception (OtherException m) = True"
| "is_Exception (SystemExiting m) = False"

fun exn_str :: "exn \<Rightarrow> pystr" where
  "exn_str (ImportError m) = m"
| "exn_str (OtherException m) = m"
| "exn_str (SystemExiting m) = m"

subsection \<open>The libraries\<close>

text \<open>
  What the script calls outside itself. \<open>'obj\<close> is the type of the library objects
  (model, processor, image, tensors). An import gives \<open>None\<close> when it succeeds and
  the exception it raises otherwise; every call returns \<open>Inl\<close> the exception it
  raises or \<open>Inr\<close> its result. \<open>repr_finite\<close> is \<open>float.__repr__\<close> on the
  finite floats other than \<open>0.0\<close>.
\<close>

record 'obj env =
  import_torch :: "exn option"
  import_PIL :: "exn option"
  import_transformers :: "exn option"
  CLIPModel_from_pretrained :: "pystr \<Rightarrow> exn + 'obj"
  CLIPProcessor_from_pretrained :: "pystr \<Rightarrow> exn + 'obj"
  Image_open :: "pystr \<Rightarrow> exn + 'obj"
  Image_convert :: "'obj \<Rightarrow> pystr \<Rightarrow> exn + 'obj"
  processor_call :: "'obj \<Rightarrow> 'obj \<Rightarrow> pystr \<Rightarrow> exn + 'obj"
  get_image_features :: "'obj \<Rightarrow> 'obj \<Rightarrow> exn + 'obj"
  tensor_norm :: "'obj \<Rightarrow> exn + 'obj"
  tensor_div :: "'obj \<Rightarrow> 'obj \<Rightarrow> exn + 'obj"
  tensor_getitem :: "'obj \<Rightarrow> nat \<Rightarrow> exn + 'obj"
  tensor_tolist :: "'obj \<Rightarrow> exn + pyfloat list"
  repr_finite :: "pyfloat \<Rightarrow> pystr"

text \<open>
  The library calls a run makes, in order. A computation is the list of its calls
  together with the exception it raised or the value it returned.
\<close>

datatype call =
    ModelFromPretrained pystr
  | ProcessorFromPretrained pystr
  | ImageOpen pystr
  | ImageConvert pystr
  | ProcessorCall
  | GetImageFeatures
  | TensorNorm
  | TensorDiv
  | TensorGetitem nat
  | TensorTolist

type_synonym 'a io = "call list \<times> (exn + 'a)"

definition return_io :: "'a \<Rightarrow> 'a io" where
  "return_io x = ([], Inr x)"

definition lib :: "call \<Rightarrow> exn + 'a \<Rightarrow> 'a io" where
  "lib c r = ([c], r)"

definition bind_io :: "'a io \<Rightarrow> ('a \<Rightarrow> 'b io) \<Rightarrow> 'b io" where
  "bind_io m f =
     (case m of
        (cs, Inl e) \<Rightarrow> (cs, Inl e)
      | (cs, Inr x) \<Rightarrow> (case f x of (cs', r) \<Rightarrow> (cs @ cs', r)))"

subsection \<open>\<open>json.dumps\<close> with its default options\<close>

text \<open>
  \<open>json.dumps(obj)\<close> as CPython's \<open>json.encoder\<close> computes it for the defaults
  \<open>ensure_ascii=True\<close>, \<open>allow_nan=True\<close>, no indent, separators
  \<open>', '\<close> and \<open>': '\<close>, on a dictionary whose keys are strings and whose values
  are strings or lists of floats.

  \<open>escape_char\<close> is the replacement function of \<open>py_encode_basestring_ascii\<close>:
  the backslash, the double quote and the five named control characters have two-character
  escapes, the other characters from space to tilde stand for themselves, every other
  code point below \<open>0x10000\<close> is written \<open>\uXXXX\<close> and the ones above as a
  surrogate pair (\<open>s1 = 0xd800 | ((n >> 10) & 0x3ff)\<close>,
  \<open>s2 = 0xdc00 | (n & 0x3ff)\<close> for \<open>n = c - 0x10000\<close>).
\<close>

definition hexdigit :: "nat \<Rightarrow> nat" where
  "hexdigit d = (if d < 10 then 48 + d else 87 + d)"

definition hex4 :: "nat \<Rightarrow> pystr" where
  "hex4 n = [hexdigit (n div 4096 mod 16), hexdigit (n div 256 mod 16),
             hexdigit (n div 16 mod 16), hexdigit (n mod 16)]"

definition escape_char :: "nat \<Rightarrow> pystr" where
  "escape_char c =
     (if c = 92 then [92, 92]
      else if c = 34 then [92, 34]
      else if c = 8 then [92, 98]
      else if c = 12 then [92, 102]
      else if c = 10 then [92, 110]
      else if c = 13 then [92, 114]
      else if c = 9 then [92, 116]
      else if 32 \<le> c \<and> c \<le> 126 then [c]
      else if c < 65536 then [92, 117] @ hex4 c
      else (let n = c - 65536;
                s1 = 55296 + (n div 1024) mod 1024;
                s2 = 56320 + n mod 1024
            in [92, 117] @ hex4 s1 @ [92, 117] @ hex4 s2))"

definition encode_basestring_ascii :: "pystr \<Rightarrow> pystr" where
  "encode_basestring_ascii s = [34] @ concat (map escape_char s) @ [34]"

text \<open>
  \<open>float.__repr__\<close>: \<open>0.0\<close> prints as \<open>0.0\<close>; the shortest digits that
  round-trip, which CPython computes for the other finite values, are the library's
  \<open>repr_finite\<close>.
\<close>

definition float_repr :: "(pyfloat \<Rightarrow> pystr) \<Rightarrow> pyfloat \<Rightarrow> pystr" where
  "float_repr r x = (if x = float_zero then lit ''0.0'' else r x)"

text \<open>
  \<open>floatstr\<close> of the encoder: \<open>o != o\<close> holds of NaN only; with
  \<open>allow_nan\<close> the three non-finite values are written as JavaScript names.
\<close>

definition floatstr :: "(pyfloat \<Rightarrow> pystr) \<Rightarrow> pyfloat \<Rightarrow> pystr" where
  "floatstr r x =
     (if float_is_nan x then lit ''NaN''
      else if x = float_inf then lit ''Infinity''
      else if x = float_neginf then lit ''-Infinity''
      else float_repr r x)"

fun join :: "pystr \<Rightarrow> pystr list \<Rightarrow> pystr" where
  "join sep [] = []"
| "join sep [x] = x"
| "join sep (x # y # ys) = x @ sep @ join sep (y # ys)"

fun dumps_value :: "(pyfloat \<Rightarrow> pystr) \<Rightarrow> pyval \<Rightarrow> pystr" where
  "dumps_value r (PStr s) = encode_basestring_ascii s"
| "dumps_value r (PList xs) = [91] @ join (lit '', '') (map (floatstr r) xs) @ [93]"

definition dumps_item :: "(pyfloat \<Rightarrow> pystr) \<Rightarrow> pystr \<times> pyval \<Rightarrow> pystr" where
  "dumps_item r kv = encode_basestring_ascii (fst kv) @ lit '': '' @ dumps_value r (snd kv)"

definition json_dumps :: "(pyfloat \<Rightarrow> pystr) \<Rightarrow> document \<Rightarrow> pystr" where
  "json_dumps r d = [123] @ join (lit '', '') (map (dumps_item r) d) @ [125]"

text \<open>\<open>print(s, file=f)\<close> writes \<open>s\<close> and a newline to the stream.\<close>

definition print_line :: "pystr \<Rightarrow> pystr" where
  "print_line s = s @ [10]"

subsection \<open>\<open>process_image\<close>\<close>

definition model_name :: pystr where
  "model_name = lit ''openai/clip-vit-base-patch32''"

definition zero_embedding :: "pyfloat list" where
  "zero_embedding = replicate 512 float_zero"

text \<open>Lines 23 to 26: the placeholder returned when \<open>HAS_CLIP\<close> is false.\<close>

definition fallback_document :: "pystr \<Rightarrow> document" where
  "fallback_document image_path =
     [(lit ''caption'', PStr (lit ''Image: '' @ image_path)),
      (lit ''embedding'', PList zero_embedding)]"

text \<open>Lines 56 to 59: the document of the \<open>except Exception as e\<close> handler.\<close>

definition error_document :: "exn \<Rightarrow> document" where
  "error_document e =
     [(lit ''caption'', PStr (lit ''Error processing image: '' @ exn_str e)),
      (lit ''embedding'', PList zero_embedding)]"

text \<open>
  Lines 29 to 54, the body of the \<open>try\<close>: each library call in the order of the
  source; the first one that raises ends the body.
  (\<open>torch.no_grad()\<close> switches gradient recording off and is left out.)
\<close>

definition try_body :: "'obj env \<Rightarrow> pystr \<Rightarrow> document io" where
  "try_body env image_path =
     bind_io (lib (ModelFromPretrained model_name) (CLIPModel_from_pretrained env model_name))
       (\<lambda>model.
     bind_io (lib (ProcessorFromPretrained model_name)
                (CLIPProcessor_from_pretrained env model_name))
       (\<lambda>processor.
     bind_io (lib (ImageOpen image_path) (Image_open env image_path))
       (\<lambda>opened.
     bind_io (lib (ImageConvert (lit ''RGB'')) (Image_convert env opened (lit ''RGB'')))
       (\<lambda>image.
     bind_io (lib ProcessorCall (processor_call env processor image (lit ''pt'')))
       (\<lambda>inputs.
     bind_io (lib GetImageFeatures (get_image_features env model inputs))
       (\<lambda>image_features.
     bind_io (lib TensorNorm (tensor_norm env image_features))
       (\<lambda>norm.
     bind_io (lib TensorDiv (tensor_div env image_features norm))
       (\<lambda>normalized.
     bind_io (lib (TensorGetitem 0) (tensor_getitem env normalized 0))
       (\<lambda>row.
     bind_io (lib TensorTolist (tensor_tolist env row))
       (\<lambda>embedding.
     return_io
       [(lit ''caption'', PStr (lit ''Image from '' @ image_path)),
        (lit ''embedding'', PList embedding)]))))))))))"

text \<open>
  \<open>process_image\<close> reads the module's global \<open>HAS_CLIP\<close>, here its second
  argument. \<open>except Exception\<close> catches the instances of \<open>Exception\<close>; any
  other exception leaves the function.
\<close>

definition process_image :: "'obj env \<Rightarrow> bool \<Rightarrow> pystr \<Rightarrow> document io" where
  "process_image env HAS_CLIP image_path =
     (if \<not> HAS_CLIP then return_io (fallback_document image_path)
      else (case try_body env image_path of
              (cs, Inr result) \<Rightarrow> (cs, Inr result)
            | (cs, Inl e) \<Rightarrow>
                if is_Exception e then (cs, Inr (error_document e)) else (cs, Inl e)))"

subsection \<open>The module and its main block\<close>

definition warning :: pystr where
  "warning = lit ''Warning: transformers not installed. Install with: pip install transformers torch pillow''"

definition usage_document :: document where
  "usage_document = [(lit ''error'', PStr (lit ''Usage: clip2_process.py <image_path>''))]"

text \<open>
  Lines 7 to 17. \<open>sys\<close> and \<open>json\<close> belong to the interpreter. The imports of
  torch and PIL are not guarded; the import of transformers is guarded by
  \<open>except ImportError\<close>, which prints the warning to standard error and sets
  \<open>HAS_CLIP\<close> to false. The result is the text written to standard error and either
  the exception that ended the module or the value of \<open>HAS_CLIP\<close>.
\<close>

definition load_module :: "'obj env \<Rightarrow> pystr \<times> (exn + bool)" where
  "load_module env =
     (case import_torch env of
        Some e \<Rightarrow> ([], Inl e)
      | None \<Rightarrow>
          (case import_PIL env of
             Some e \<Rightarrow> ([], Inl e)
           | None \<Rightarrow>
               (case import_transformers env of
                  None \<Rightarrow> ([], Inr True)
                | Some e \<Rightarrow>
                    if is_ImportError e then (print_line warning, Inr False)
                    else ([], Inl e))))"

text \<open>
  How a run ends: \<open>Exit n\<close> is the exit code (\<open>sys.exit(1)\<close>, or 0 at the end of
  the script); \<open>Uncaught e\<close> is an exception that no handler caught, on which the
  interpreter prints a traceback to standard error and ends the process with a non-zero
  code. \<open>stdout\<close> and \<open>stderr\<close> hold the characters the script itself printed.
\<close>

datatype status = Exit nat | Uncaught exn

record run =
  stdout :: pystr
  stderr :: pystr
  calls :: "call list"
  status :: status

text \<open>Lines 61 to 68, after the module's imports, for \<open>sys.argv = argv\<close>.\<close>

definition main :: "'obj env \<Rightarrow> pystr list \<Rightarrow> run" where
  "main env argv =
     (case load_module env of
        (err, Inl e) \<Rightarrow> \<lparr>stdout = [], stderr = err, calls = [], status = Uncaught e\<rparr>
      | (err, Inr HAS_CLIP) \<Rightarrow>
          if length argv < 2 then
            \<lparr>stdout = [],
             stderr = err @ print_line (json_dumps (repr_finite env) usage_document),
             calls = [], status = Exit 1\<rparr>
          else
            (case process_image env HAS_CLIP (argv ! 1) of
               (cs, Inl e) \<Rightarrow> \<lparr>stdout = [], stderr = err, calls = cs, status = Uncaught e\<rparr>
             | (cs, Inr result) \<Rightarrow>
                 \<lparr>stdout = print_line (json_dumps (repr_finite env) result),
                  stderr = err, calls = cs, status = Exit 0\<rparr>))"

subsection \<open>A JSON decoder\<close>

text \<open>
  The grammar of RFC 8259 as a recursive-descent recogniser over code points. Each
  scanner takes the input and returns what is left after the construct it reads, or
  \<open>None\<close> when the input does not start with one. The scanners for values, array
  elements and object members call each other; their first argument bounds the number of
  nested calls, and \<open>json_valid\<close> starts them with the length of the text. A larger
  bound accepts whatever a smaller one accepts (lemma \<open>scan_value_more\<close>).
\<close>

definition is_ws :: "nat \<Rightarrow> bool" where
  "is_ws c \<longleftrightarrow> c = 32 \<or> c = 9 \<or> c = 10 \<or> c = 13"

definition skip_ws :: "pystr \<Rightarrow> pystr" where
  "skip_ws s = dropWhile is_ws s"

definition is_digit :: "nat \<Rightarrow> bool" where
  "is_digit c \<longleftrightarrow> 48 \<le> c \<and> c \<le> 57"

definition is_hex :: "nat \<Rightarrow> bool" where
  "is_hex c \<longleftrightarrow> is_digit c \<or> (97 \<le> c \<and> c \<le> 102) \<or> (65 \<le> c \<and> c \<le> 70)"

definition is_escape :: "nat \<Rightarrow> bool" where
  "is_escape c \<longleftrightarrow>
     c = 34 \<or> c = 92 \<or> c = 47 \<or> c = 98 \<or> c = 102 \<or> c = 110 \<or> c = 114 \<or> c = 116"

text \<open>
  The characters of a string after its opening quote, up to and including the closing
  quote: an unescaped character is any code point from \<open>0x20\<close> to \<open>0x10FFFF\<close>
  but the quote and the backslash; a backslash starts one of the two-character escapes or
  \<open>\u\<close> with four hexadecimal digits.
\<close>

fun scan_string :: "pystr \<Rightarrow> pystr option" where
  "scan_string [] = None"
| "scan_string (c # cs) =
     (if c = 34 then Some cs
      else if c = 92 then
        (case cs of
           [] \<Rightarrow> None
         | e # r \<Rightarrow>
             if e = 117 then
               (if 4 \<le> length r \<and> list_all is_hex (take 4 r) then scan_string (drop 4 r)
                else None)
             else if is_escape e then scan_string r
             else None)
      else if c < 32 \<or> 1114111 < c then None
      else scan_string cs)"

text \<open>
  A number is \<open>[-] int [frac] [exp]\<close>: \<open>int\<close> is \<open>0\<close> or a digit from 1 to 9
  followed by digits, \<open>frac\<close> a point and at least one digit, \<open>exp\<close> the letter
  \<open>e\<close> or \<open>E\<close>, an optional sign and at least one digit.
\<close>

definition scan_digits :: "pystr \<Rightarrow> pystr option" where
  "scan_digits s =
     (case s of
        [] \<Rightarrow> None
      | c # cs \<Rightarrow> if is_digit c then Some (dropWhile is_digit cs) else None)"

definition scan_int :: "pystr \<Rightarrow> pystr option" where
  "scan_int s =
     (case s of
        [] \<Rightarrow> None
      | c # cs \<Rightarrow>
          if c = 48 then Some cs
          else if 49 \<le> c \<and> c \<le> 57 then Some (dropWhile is_digit cs)
          else None)"

definition scan_frac :: "pystr \<Rightarrow> pystr option" where
  "scan_frac s =
     (case s of
        [] \<Rightarrow> Some s
      | c # cs \<Rightarrow> if c = 46 then scan_digits cs else Some s)"

definition scan_exp :: "pystr \<Rightarrow> pystr option" where
  "scan_exp s =
     (case s of
        [] \<Rightarrow> Some s
      | c # cs \<Rightarrow>
          if c = 101 \<or> c = 69 then
            (case cs of
               [] \<Rightarrow> None
             | d # ds \<Rightarrow> if d = 43 \<or> d = 45 then scan_digits ds else scan_digits cs)
          else Some s)"

definition scan_sign :: "pystr \<Rightarrow> pystr" where
  "scan_sign s = (case s of [] \<Rightarrow> s | c # cs \<Rightarrow> if c = 45 then cs else s)"

definition scan_number :: "pystr \<Rightarrow> pystr option" where
  "scan_number s =
     (case scan_int (scan_sign s) of
        None \<Rightarrow> None
      | Some r \<Rightarrow> (case scan_frac r of None \<Rightarrow> None | Some r' \<Rightarrow> scan_exp r'))"

fun scan_value :: "nat \<Rightarrow> pystr \<Rightarrow> pystr option"
  and scan_elements :: "nat \<Rightarrow> pystr \<Rightarrow> pystr option"
  and scan_members :: "nat \<Rightarrow> pystr \<Rightarrow> pystr option" where
  "scan_value 0 s = None"
| "scan_value (Suc n) s =
     (case s of
        [] \<Rightarrow> None
      | c # cs \<Rightarrow>
          if c = 34 then scan_string cs
          else if c = 91 then
            (case skip_ws cs of
               [] \<Rightarrow> None
             | d # ds \<Rightarrow> if d = 93 then Some ds else scan_elements n (d # ds))
          else if c = 123 then
            (case skip_ws cs of
               [] \<Rightarrow> None
             | d # ds \<Rightarrow> if d = 125 then Some ds else scan_members n (d # ds))
          else if take 4 s = lit ''true'' then Some (drop 4 s)
          else if take 5 s = lit ''false'' then Some (drop 5 s)
          else if take 4 s = lit ''null'' then Some (drop 4 s)
          else scan_number s)"
| "scan_elements 0 s = None"
| "scan_elements (Suc n) s =
     (case scan_value n s of
        None \<Rightarrow> None
      | Some r \<Rightarrow>
          (case skip_ws r of
             [] \<Rightarrow> None
           | c # cs \<Rightarrow>
               if c = 44 then scan_elements n (skip_ws cs)
               else if c = 93 then Some cs
               else None))"
| "scan_members 0 s = None"
| "scan_members (Suc n) s =
     (case s of
        [] \<Rightarrow> None
      | c # cs \<Rightarrow>
          if c \<noteq> 34 then None
          else
            (case scan_string cs of
               None \<Rightarrow> None
             | Some r \<Rightarrow>
                 (case skip_ws r of
                    [] \<Rightarrow> None
                  | d # ds \<Rightarrow>
                      if d \<noteq> 58 then None
                      else
                        (case scan_value n (skip_ws ds) of
                           None \<Rightarrow> None
                         | Some r' \<Rightarrow>
                             (case skip_ws r' of
                                [] \<Rightarrow> None
                              | e # es \<Rightarrow>
                                  if e = 44 then scan_members n (skip_ws es)
                                  else if e = 125 then Some es
                                  else None)))))"

text \<open>A JSON text is one value between optional white space.\<close>

definition json_valid :: "pystr \<Rightarrow> bool" where
  "json_valid s =
     (case scan_value (length s) (skip_ws s) of
        None \<Rightarrow> False
      | Some r \<Rightarrow> skip_ws r = [])"

text \<open>A number token: the number scanner reads all of it.\<close>

definition is_json_number :: "pystr \<Rightarrow> bool" where
  "is_json_number t \<longleftrightarrow> scan_number t = Some []"

text \<open>What a stream holds after one \<open>print\<close> of a JSON text without line breaks.\<close>

definition single_line :: "pystr \<Rightarrow> bool" where
  "single_line s \<longleftrightarrow> 10 \<notin> set s \<and> 13 \<notin> set s"

definition one_json_line :: "pystr \<Rightarrow> bool" where
  "one_json_line out \<longleftrightarrow>
     out \<noteq> [] \<and> last out = 10 \<and> single_line (butlast out) \<and> json_valid (butlast out)"

text \<open>
  A float is written as a JSON number when \<open>floatstr\<close> gives a number token for it.
  \<open>0.0\<close> is; NaN and the infinities are not; for the other finite values it is a
  statement about \<open>repr_finite\<close>. A document is written as JSON when all floats of
  its lists are.
\<close>

definition float_ok :: "(pyfloat \<Rightarrow> pystr) \<Rightarrow> pyfloat \<Rightarrow> bool" where
  "float_ok r x \<longleftrightarrow> is_json_number (floatstr r x)"

fun value_ok :: "(pyfloat \<Rightarrow> pystr) \<Rightarrow> pyval \<Rightarrow> bool" where
  "value_ok r (PStr s) = True"
| "value_ok r (PList xs) = list_all (float_ok r) xs"

definition document_ok :: "(pyfloat \<Rightarrow> pystr) \<Rightarrow> document \<Rightarrow> bool" where
  "document_ok r d = list_all (\<lambda>kv. value_ok r (snd kv)) d"

text \<open>
  The nested scanner calls that reading a printed value and a printed document take:
  one for a string, one more than its elements plus one for a list, and for a document
  one per member on top of its values.
\<close>

fun value_calls :: "pyval \<Rightarrow> nat" where
  "value_calls (PStr s) = 1"
| "value_calls (PList xs) = length xs + 2"

definition document_calls :: "document \<Rightarrow> nat" where
  "document_calls d = sum_list (map (\<lambda>kv. Suc (value_calls (snd kv))) d)"

subsection \<open>Example environments\<close>

text \<open>
  Library objects are numbered handles. In \<open>env_ok\<close> every import and every call
  succeeds and the normalised feature row is \<open>[1.0, 0.0]\<close>; the other environments
  change one entry of it.
\<close>

definition float_one :: pyfloat where
  "float_one = 0x3FF0000000000000"

definition float_nan :: pyfloat where
  "float_nan = 0x7FF8000000000000"

definition env_ok :: "nat env" where
  "env_ok =
     \<lparr>import_torch = None, import_PIL = None, import_transformers = None,
      CLIPModel_from_pretrained = (\<lambda>name. Inr 0),
      CLIPProcessor_from_pretrained = (\<lambda>name. Inr 1),
      Image_open = (\<lambda>path. Inr 2),
      Image_convert = (\<lambda>img mode. Inr 3),
      processor_call = (\<lambda>processor img tensors. Inr 4),
      get_image_features = (\<lambda>model inputs. Inr 5),
      tensor_norm = (\<lambda>t. Inr 6),
      tensor_div = (\<lambda>t n. Inr 7),
      tensor_getitem = (\<lambda>t i. Inr 8),
      tensor_tolist = (\<lambda>t. Inr [float_one, float_zero]),
      repr_finite = (\<lambda>x. if x = float_one then lit ''1.0'' else lit ''0.5'')\<rparr>"

text \<open>transformers is not installed.\<close>

definition env_no_clip :: "nat env" where
  "env_no_clip =
     env_ok\<lparr>import_transformers := Some (ImportError (lit ''No module named transformers''))\<rparr>"

text \<open>torch is not installed.\<close>

definition env_no_torch :: "nat env" where
  "env_no_torch = env_ok\<lparr>import_torch := Some (ImportError (lit ''No module named torch''))\<rparr>"

text \<open>PIL is not installed.\<close>

definition env_no_pil :: "nat env" where
  "env_no_pil = env_ok\<lparr>import_PIL := Some (ImportError (lit ''No module named PIL''))\<rparr>"




definition script :: pystr where
  "script = lit ''clip2_process.py''"

definition cat_png :: pystr where
  "cat_png = lit ''cat.png''"

section \<open>Properties of \<open>process_image\<close>\<close>

subsection \<open>The steps of a computation\<close>


lemma bind_io_Inr: "bind_io (cs, Inr x) f = (cs @ fst (f x), snd (f x))"
  by (simp add: bind_io_def split: prod.split)

text \<open>Whatever the body of the \<open>try\<close> returns was built at line 51.\<close>

lemma try_body_result:
  "try_body env p = (cs, Inr d) \<Longrightarrow>
     \<exists>e. d = [(lit ''caption'', PStr (lit ''Image from '' @ p)), (lit ''embedding'', PList e)]"
  unfolding try_body_def bind_io_def lib_def return_io_def
  by (auto split: sum.splits prod.splits)

text \<open>
  When every library call succeeds, the run makes the ten calls of lines 32 to 45 in
  this order and returns the list that \<open>tolist\<close> gave, under the caption of line 49.
\<close>

lemma process_image_success:
  assumes "CLIPModel_from_pretrained env model_name = Inr model"
    and "CLIPProcessor_from_pretrained env model_name = Inr processor"
    and "Image_open env p = Inr opened"
    and "Image_convert env opened (lit ''RGB'') = Inr rgb"
    and "processor_call env processor rgb (lit ''pt'') = Inr inputs"
    and "get_image_features env model inputs = Inr features"
    and "tensor_norm env features = Inr vnorm"
    and "tensor_div env features vnorm = Inr normalized"
    and "tensor_getitem env normalized 0 = Inr row"
    and "tensor_tolist env row = Inr embedding"
  shows "process_image env True p =
           ([ModelFromPretrained model_name, ProcessorFromPretrained model_name, ImageOpen p,
             ImageConvert (lit ''RGB''), ProcessorCall, GetImageFeatures, TensorNorm, TensorDiv,
             TensorGetitem 0, TensorTolist],
            Inr [(lit ''caption'', PStr (lit ''Image from '' @ p)),
                 (lit ''embedding'', PList embedding)])"
  using assms
  by (simp add: process_image_def try_body_def lib_def return_io_def bind_io_Inr)



text \<open>The module's imports complete in two ways only.\<close>

lemma load_module_cases:
  "load_module env = (err, Inr h) \<Longrightarrow>
     import_torch env = None \<and> import_PIL env = None \<and>
     ((h \<and> err = [] \<and> import_transformers env = None) \<or>
      (\<not> h \<and> err = print_line warning \<and>
       (\<exists>e. import_transformers env = Some e \<and> is_ImportError e)))"
  by (auto simp add: load_module_def split: option.splits if_splits)

subsection \<open>The placeholder branch\<close>

text \<open>
  C2. For every path, when \<open>HAS_CLIP\<close> is false \<open>process_image\<close> returns the
  dictionary with the caption \<open>Image: <path>\<close> and an embedding of 512 zeros, and
  nothing else.
\<close>

theorem C2_fallback_document:
  "process_image env False image_path =
     ([], Inr [(lit ''caption'', PStr (lit ''Image: '' @ image_path)),
               (lit ''embedding'', PList (replicate 512 float_zero))])"
  by (simp add: process_image_def return_io_def fallback_document_def zero_embedding_def)

text \<open>
  C7. In the placeholder branch \<open>process_image\<close> makes no library call at all, so
  it does not open the file at the path, and its result is the same whatever the libraries
  and the file system would answer.
\<close>

theorem C7_fallback_reads_nothing:
  "fst (process_image env False image_path) = [] \<and>
   ImageOpen image_path \<notin> set (fst (process_image env False image_path)) \<and>
   process_image env False image_path = process_image env' False image_path"
  by (simp add: process_image_def return_io_def)

subsection \<open>The shape of the result\<close>

text \<open>
  C9. In every branch in which \<open>process_image\<close> returns, the result is a dictionary
  with exactly the keys \<open>caption\<close> and \<open>embedding\<close>, in this order, the first
  holding a string and the second a list of floats. It does not return only when the
  libraries are present and one of them raises an exception that is not an instance of
  \<open>Exception\<close>.
\<close>

theorem C9_result_shape:
  "case snd (process_image env HAS_CLIP image_path) of
     Inr d \<Rightarrow> \<exists>c e. d = [(lit ''caption'', PStr c), (lit ''embedding'', PList e)]
   | Inl e \<Rightarrow> HAS_CLIP \<and> \<not> is_Exception e"
proof (cases HAS_CLIP)
  case False
  then show ?thesis by (simp add: process_image_def return_io_def fallback_document_def)
next
  case True
  obtain cs r where tb: "try_body env image_path = (cs, r)"
    by (cases "try_body env image_path")
  show ?thesis
  proof (cases r)
    case (Inl e)
    with tb True show ?thesis by (simp add: process_image_def error_document_def)
  next
    case (Inr d)
    with tb try_body_result[of env image_path cs d] True show ?thesis
      by (auto simp add: process_image_def)
  qed
qed

subsection \<open>Exceptions inside \<open>process_image\<close>\<close>




section \<open>What \<open>json.dumps\<close> prints is JSON\<close>

text \<open>
  The decoder reads back what the encoder writes: an encoded string up to its closing
  quote, a number token up to the comma or bracket after it, a list of floats, the members
  of a dictionary. The text after the construct is arbitrary throughout, so the lemmas
  compose.
\<close>

subsection \<open>Strings\<close>

lemma hexdigit_is_hex: "d < 16 \<Longrightarrow> is_hex (hexdigit d)"
  by (simp add: hexdigit_def is_hex_def is_digit_def)

lemma hex4_length: "length (hex4 n) = 4"
  by (simp add: hex4_def)

lemma hex4_is_hex: "list_all is_hex (hex4 n)"
  by (simp add: hex4_def hexdigit_is_hex)

lemma scan_string_u: "scan_string (92 # 117 # hex4 n @ rest) = scan_string rest"
  by (simp add: hex4_length hex4_is_hex)

lemma scan_string_escape: "scan_string (escape_char c @ rest) = scan_string rest"
proof -
  consider "c = 92" | "c = 34" | "c = 8" | "c = 12" | "c = 10" | "c = 13" | "c = 9"
    | "c \<notin> {92, 34, 8, 12, 10, 13, 9}" "32 \<le> c" "c \<le> 126"
    | "c \<notin> {92, 34, 8, 12, 10, 13, 9}" "\<not> (32 \<le> c \<and> c \<le> 126)" "c < 65536"
    | "c \<notin> {92, 34, 8, 12, 10, 13, 9}" "\<not> (32 \<le> c \<and> c \<le> 126)" "\<not> c < 65536"
    by blast
  then show ?thesis
  proof cases
    case 8 then show ?thesis by (simp add: escape_char_def)
  next
    case 9 then show ?thesis using scan_string_u[of c rest] by (simp add: escape_char_def)
  next
    case 10 then show ?thesis
      using scan_string_u[of "55296 + ((c - 65536) div 1024) mod 1024" "92 # 117 # hex4 (56320 + (c - 65536) mod 1024) @ rest"]
        scan_string_u[of "56320 + (c - 65536) mod 1024" rest]
      by (simp add: escape_char_def Let_def)
  qed (simp_all add: escape_char_def is_escape_def)
qed

lemma scan_string_body:
  "scan_string (concat (map escape_char s) @ 34 # rest) = Some rest"
  by (induction s) (simp_all add: scan_string_escape)

lemma scan_value_string:
  "scan_value (Suc n) (encode_basestring_ascii s @ rest) = Some rest"
  by (simp add: encode_basestring_ascii_def scan_string_body)

subsection \<open>Numbers\<close>

lemma dropWhile_digits_append:
  "\<not> is_digit c \<Longrightarrow> dropWhile is_digit (s @ c # cs) = dropWhile is_digit s @ c # cs"
  by (induction s) simp_all

lemma scan_digits_append:
  "scan_digits s = Some r \<Longrightarrow> \<not> is_digit c \<Longrightarrow> scan_digits (s @ c # cs) = Some (r @ c # cs)"
  by (cases s) (auto simp add: scan_digits_def dropWhile_digits_append split: if_splits)

lemma scan_int_append:
  "scan_int s = Some r \<Longrightarrow> \<not> is_digit c \<Longrightarrow> scan_int (s @ c # cs) = Some (r @ c # cs)"
  by (cases s) (auto simp add: scan_int_def dropWhile_digits_append split: if_splits)

lemma scan_frac_append:
  "scan_frac s = Some r \<Longrightarrow> \<not> is_digit c \<Longrightarrow> c \<noteq> 46 \<Longrightarrow>
     scan_frac (s @ c # cs) = Some (r @ c # cs)"
  by (cases s) (auto simp add: scan_frac_def scan_digits_append split: if_splits)

lemma scan_exp_append:
  "scan_exp s = Some r \<Longrightarrow> \<not> is_digit c \<Longrightarrow> c \<noteq> 101 \<Longrightarrow> c \<noteq> 69 \<Longrightarrow>
     scan_exp (s @ c # cs) = Some (r @ c # cs)"
proof (cases s)
  case Nil
  assume "scan_exp s = Some r" "c \<noteq> 101" "c \<noteq> 69"
  with Nil show ?thesis by (simp add: scan_exp_def)
next
  case (Cons a as)
  assume h: "scan_exp s = Some r" "\<not> is_digit c"
  show ?thesis
  proof (cases as)
    case Nil
    with Cons h show ?thesis by (auto simp add: scan_exp_def split: if_splits)
  next
    case (Cons d ds)
    with \<open>s = a # as\<close> h scan_digits_append[of "d # ds" r c cs] show ?thesis
      by (auto simp add: scan_exp_def scan_digits_append split: if_splits)
  qed
qed

lemma scan_int_nonempty: "scan_int s = Some r \<Longrightarrow> s \<noteq> []"
  by (auto simp add: scan_int_def)

lemma scan_sign_append: "s \<noteq> [] \<Longrightarrow> scan_sign (s @ t) = scan_sign s @ t"
  by (cases s) (simp_all add: scan_sign_def)

lemma scan_sign_Nil: "scan_sign [] = []"
  by (simp add: scan_sign_def)

lemma scan_number_nonempty: "scan_number s = Some r \<Longrightarrow> s \<noteq> []"
  by (auto simp add: scan_number_def scan_sign_Nil scan_int_def split: option.splits)

lemma scan_number_append:
  assumes "scan_number s = Some r" and "\<not> is_digit c" and "c \<noteq> 46" and "c \<noteq> 101" and "c \<noteq> 69"
  shows "scan_number (s @ c # cs) = Some (r @ c # cs)"
proof -
  from assms(1) obtain r1 r2 where
    i: "scan_int (scan_sign s) = Some r1" and f: "scan_frac r1 = Some r2" and e: "scan_exp r2 = Some r"
    by (auto simp add: scan_number_def split: option.splits)
  have ne: "s \<noteq> []" using assms(1) by (rule scan_number_nonempty)
  have "scan_int (scan_sign (s @ c # cs)) = Some (r1 @ c # cs)"
    using scan_int_append[OF i assms(2)] by (simp add: scan_sign_append[OF ne])
  moreover have "scan_frac (r1 @ c # cs) = Some (r2 @ c # cs)"
    using f assms(2,3) by (rule scan_frac_append)
  moreover have "scan_exp (r2 @ c # cs) = Some (r @ c # cs)"
    using e assms(2,4,5) by (rule scan_exp_append)
  ultimately show ?thesis by (simp add: scan_number_def)
qed

text \<open>The first character of a number is the minus sign or a digit.\<close>

lemma scan_number_head:
  "scan_number s = Some r \<Longrightarrow> \<exists>a as. s = a # as \<and> (a = 45 \<or> is_digit a)"
  by (cases s)
     (auto simp add: scan_number_def scan_sign_def scan_int_def is_digit_def
           split: option.splits if_splits list.splits)

lemma scan_value_number:
  assumes "is_json_number t" and "c = 44 \<or> c = 93"
  shows "scan_value (Suc n) (t @ c # cs) = Some (c # cs)"
proof -
  from assms(1) have sn: "scan_number t = Some []" by (simp add: is_json_number_def)
  from scan_number_head[OF sn] obtain a as where t: "t = a # as" and a: "a = 45 \<or> is_digit a"
    by blast
  have c: "\<not> is_digit c" "c \<noteq> 46" "c \<noteq> 101" "c \<noteq> 69"
    using assms(2) by (auto simp add: is_digit_def)
  have "scan_number (t @ c # cs) = Some (c # cs)"
    using scan_number_append[OF sn c] by simp
  moreover have "a \<noteq> 34" "a \<noteq> 91" "a \<noteq> 123" "a \<noteq> 116" "a \<noteq> 102" "a \<noteq> 110"
    using a by (auto simp add: is_digit_def)
  ultimately show ?thesis
    by (simp add: t lit_def)
qed

lemma number_head_not_ws:
  "is_json_number t \<Longrightarrow> skip_ws (t @ rest) = t @ rest"
proof -
  assume "is_json_number t"
  then have "scan_number t = Some []" by (simp add: is_json_number_def)
  from scan_number_head[OF this] show ?thesis
    by (auto simp add: skip_ws_def is_ws_def is_digit_def)
qed

subsection \<open>Lists of floats\<close>

lemma join_Cons: "join sep (x # xs) = x @ (if xs = [] then [] else sep @ join sep xs)"
  by (cases xs) simp_all

lemma float_ok_skip_ws: "float_ok r x \<Longrightarrow> skip_ws (floatstr r x @ rest) = floatstr r x @ rest"
  by (simp add: float_ok_def number_head_not_ws)

lemma skip_ws_simps:
  "skip_ws (32 # s) = skip_ws s" "skip_ws (44 # s) = 44 # s" "skip_ws (93 # s) = 93 # s"
  "skip_ws (125 # s) = 125 # s" "skip_ws (58 # s) = 58 # s" "skip_ws (34 # s) = 34 # s"
  "skip_ws (91 # s) = 91 # s" "skip_ws (123 # s) = 123 # s" "skip_ws [] = []"
  by (simp_all add: skip_ws_def is_ws_def)

lemma scan_elements_floats:
  "list_all (float_ok r) xs \<Longrightarrow> xs \<noteq> [] \<Longrightarrow> length xs < F \<Longrightarrow>
     scan_elements F (join (lit '', '') (map (floatstr r) xs) @ 93 # rest) = Some rest"
proof (induction xs arbitrary: F)
  case Nil
  then show ?case by simp
next
  case (Cons x xs)
  from Cons.prems(3) obtain m where F: "F = Suc (Suc m)" and m: "length xs \<le> m"
    by (cases F; cases "F - 1") auto
  note IH = Cons.IH
  from Cons.prems(1) have xs: "list_all (float_ok r) xs" by simp
  from Cons.prems(1) have x: "is_json_number (floatstr r x)" by (simp add: float_ok_def)
  show ?case
  proof (cases xs)
    case Nil
    then show ?thesis
      using scan_value_number[OF x, of 93 m rest]
      by (simp add: F skip_ws_simps)
  next
    case (Cons y ys)
    have ne: "xs \<noteq> []" using Cons by simp
    have lt: "length xs < Suc m" using m by simp
    have ih: "scan_elements (Suc m) (join (lit '', '') (map (floatstr r) xs) @ 93 # rest) = Some rest"
      using xs ne lt by (rule IH)
    have y: "float_ok r y" using xs Cons by simp
    have sk: "skip_ws (join (lit '', '') (map (floatstr r) xs) @ 93 # rest)
                = join (lit '', '') (map (floatstr r) xs) @ 93 # rest"
      using float_ok_skip_ws[OF y] by (simp add: Cons join_Cons)
    have v: "scan_value (Suc m)
               (floatstr r x @ 44 # 32 # join (lit '', '') (map (floatstr r) xs) @ 93 # rest)
             = Some (44 # 32 # join (lit '', '') (map (floatstr r) xs) @ 93 # rest)"
      using scan_value_number[OF x, of 44 m] by simp
    have j: "join (lit '', '') (map (floatstr r) (x # xs)) @ 93 # rest
               = floatstr r x @ 44 # 32 # join (lit '', '') (map (floatstr r) xs) @ 93 # rest"
      by (simp add: Cons lit_def)
    show ?thesis
      unfolding j F
      by (subst scan_elements.simps(2))
         (simp add: v skip_ws_simps sk ih del: scan_value.simps scan_elements.simps scan_members.simps)
  qed
qed

subsection \<open>Values and members\<close>

lemmas scan_simps = scan_value.simps scan_elements.simps scan_members.simps

lemma scan_value_dumps:
  assumes "value_ok r v" and "value_calls v \<le> F"
  shows "scan_value F (dumps_value r v @ rest) = Some rest"
proof (cases v)
  case (PStr s)
  with assms(2) obtain n where "F = Suc n" by (cases F) auto
  with PStr show ?thesis by (simp add: scan_value_string del: scan_simps)
next
  case (PList xs)
  with assms(2) obtain n where F: "F = Suc n" and n: "length xs < n" by (cases F) auto
  from assms(1) PList have ok: "list_all (float_ok r) xs" by simp
  show ?thesis
  proof (cases xs)
    case Nil
    with PList F show ?thesis by (simp add: skip_ws_simps)
  next
    case (Cons y ys)
    have ne: "xs \<noteq> []" using Cons by simp
    have y: "float_ok r y" using ok Cons by simp
    have el: "scan_elements n (join (lit '', '') (map (floatstr r) xs) @ 93 # rest) = Some rest"
      using ok ne n by (rule scan_elements_floats)
    from y have "is_json_number (floatstr r y)" by (simp add: float_ok_def)
    then have "scan_number (floatstr r y) = Some []" by (simp add: is_json_number_def)
    from scan_number_head[OF this] obtain a as where
      a: "floatstr r y = a # as" and a': "a = 45 \<or> is_digit a" by blast
    define t where "t = as @ (if ys = [] then [] else lit '', '' @ join (lit '', '') (map (floatstr r) ys)) @ 93 # rest"
    have hd: "join (lit '', '') (map (floatstr r) xs) @ 93 # rest = a # t"
      by (simp add: Cons join_Cons a t_def)
    have a93: "a \<noteq> 93" "\<not> is_ws a" using a' by (auto simp add: is_digit_def is_ws_def)
    have el': "scan_elements n (a # t) = Some rest" using el hd by simp
    have "scan_value (Suc n) (91 # a # t) = Some rest"
      by (subst scan_value.simps(2)) (simp add: skip_ws_def a93 el' del: scan_simps)
    then have "scan_value (Suc n) (91 # join (lit '', '') (map (floatstr r) xs) @ 93 # rest) = Some rest"
      by (simp add: hd)
    then show ?thesis by (simp add: PList F del: scan_simps)
  qed
qed

lemma dumps_value_skip_ws: "value_ok r v \<Longrightarrow> skip_ws (dumps_value r v @ rest) = dumps_value r v @ rest"
  by (cases v) (simp_all add: skip_ws_simps encode_basestring_ascii_def)

lemma dumps_item_skip_ws: "skip_ws (dumps_item r kv @ rest) = dumps_item r kv @ rest"
  by (simp add: dumps_item_def encode_basestring_ascii_def skip_ws_simps)

lemma scan_member:
  assumes "value_ok r (snd kv)" and "value_calls (snd kv) \<le> n" and "c = 44 \<or> c = 125"
  shows "scan_members (Suc n) (dumps_item r kv @ c # rest) =
           (if c = 44 then scan_members n (skip_ws rest) else Some rest)"
proof -
  have k: "scan_string (concat (map escape_char (fst kv)) @ 34 # 58 # 32 # dumps_value r (snd kv) @ c # rest)
           = Some (58 # 32 # dumps_value r (snd kv) @ c # rest)"
    by (rule scan_string_body)
  have v: "scan_value n (dumps_value r (snd kv) @ c # rest) = Some (c # rest)"
    using assms(1,2) by (rule scan_value_dumps)
  have s: "skip_ws (dumps_value r (snd kv) @ c # rest) = dumps_value r (snd kv) @ c # rest"
    using assms(1) by (rule dumps_value_skip_ws)
  have c: "skip_ws (c # rest) = c # rest" using assms(3) by (auto simp add: skip_ws_simps)
  have e: "dumps_item r kv @ c # rest
            = 34 # concat (map escape_char (fst kv)) @ 34 # 58 # 32 # dumps_value r (snd kv) @ c # rest"
    by (simp add: dumps_item_def encode_basestring_ascii_def lit_def)
  show ?thesis
    unfolding e
    apply (subst scan_members.simps(2))
    using assms(3)
    apply (auto simp add: k v s c skip_ws_simps simp del: scan_simps)
    done
qed

lemma scan_members_dumps:
  "document_ok r d \<Longrightarrow> d \<noteq> [] \<Longrightarrow> document_calls d \<le> F \<Longrightarrow>
     scan_members F (join (lit '', '') (map (dumps_item r) d) @ 125 # rest) = Some rest"
proof (induction d arbitrary: F)
  case Nil
  then show ?case by simp
next
  case (Cons kv d)
  note IH = Cons.IH
  from Cons.prems(3) obtain n where F: "F = Suc n" and n: "value_calls (snd kv) + document_calls d \<le> n"
    by (cases F) (auto simp add: document_calls_def)
  from Cons.prems(1) have kv: "value_ok r (snd kv)" and d: "document_ok r d"
    by (simp_all add: document_ok_def)
  from n have vn: "value_calls (snd kv) \<le> n" and dn: "document_calls d \<le> n" by simp_all
  show ?case
  proof (cases d)
    case Nil
    then show ?thesis
      using scan_member[OF kv vn, where c = 125 and rest = rest] by (simp add: F del: scan_simps)
  next
    case (Cons kv' d')
    have ne: "d \<noteq> []" using Cons by simp
    have ih: "scan_members n (join (lit '', '') (map (dumps_item r) d) @ 125 # rest) = Some rest"
      using d ne dn by (rule IH)
    have j: "join (lit '', '') (map (dumps_item r) (kv # d)) @ 125 # rest
              = dumps_item r kv @ 44 # 32 # join (lit '', '') (map (dumps_item r) d) @ 125 # rest"
      by (simp add: Cons lit_def)
    have sk: "skip_ws (32 # join (lit '', '') (map (dumps_item r) d) @ 125 # rest)
              = join (lit '', '') (map (dumps_item r) d) @ 125 # rest"
      by (simp add: Cons join_Cons skip_ws_simps dumps_item_skip_ws)
    show ?thesis
      unfolding j F using scan_member[OF kv vn, where c = 44] by (simp add: sk ih del: scan_simps)
  qed
qed

subsection \<open>A larger bound on the nested calls\<close>

lemma scan_mono:
  "(scan_value n s = Some r \<longrightarrow> scan_value (Suc n) s = Some r) \<and>
   (scan_elements n s = Some r \<longrightarrow> scan_elements (Suc n) s = Some r) \<and>
   (scan_members n s = Some r \<longrightarrow> scan_members (Suc n) s = Some r)"
proof (induction n arbitrary: s r)
  case 0
  show ?case by simp
next
  case (Suc n)
  have v: "scan_value (Suc n) s = Some r \<Longrightarrow> scan_value (Suc (Suc n)) s = Some r"
    using Suc.IH
    by (subst scan_value.simps(2), subst (asm) scan_value.simps(2))
       (auto split: list.splits if_splits simp del: scan_simps)
  have e: "scan_elements (Suc n) s = Some r \<Longrightarrow> scan_elements (Suc (Suc n)) s = Some r"
    using Suc.IH
    by (subst scan_elements.simps(2), subst (asm) scan_elements.simps(2))
       (auto split: list.splits if_splits option.splits simp del: scan_simps)
  have m: "scan_members (Suc n) s = Some r \<Longrightarrow> scan_members (Suc (Suc n)) s = Some r"
    using Suc.IH
    by (subst scan_members.simps(2), subst (asm) scan_members.simps(2))
       (auto split: list.splits if_splits option.splits simp del: scan_simps)
  from v e m show ?case by blast
qed

lemma scan_value_more: "scan_value n s = Some r \<Longrightarrow> scan_value (n + k) s = Some r"
  by (induction k) (simp_all add: scan_mono del: scan_simps)

subsection \<open>Documents\<close>

lemma float_ok_nonempty: "float_ok r x \<Longrightarrow> floatstr r x \<noteq> []"
  using scan_number_nonempty[of "floatstr r x" "[]"]
  by (simp add: float_ok_def is_json_number_def)

lemma length_join_floats:
  "list_all (float_ok r) xs \<Longrightarrow> length xs \<le> length (join sep (map (floatstr r) xs))"
proof (induction xs)
  case Nil
  then show ?case by simp
next
  case (Cons x xs)
  from Cons.prems have "floatstr r x \<noteq> []" by (simp add: float_ok_nonempty)
  then have "Suc 0 \<le> length (floatstr r x)" by (cases "floatstr r x") simp_all
  moreover from Cons have "length xs \<le> length (join sep (map (floatstr r) xs))" by simp
  ultimately show ?case by (simp add: join_Cons)
qed

lemma value_calls_le: "value_ok r v \<Longrightarrow> value_calls v \<le> length (dumps_value r v)"
  using length_join_floats[of r _ "lit '', ''"]
  by (cases v) (simp_all add: encode_basestring_ascii_def)

lemma item_calls_le: "value_ok r (snd kv) \<Longrightarrow> Suc (value_calls (snd kv)) \<le> length (dumps_item r kv)"
  using value_calls_le[of r "snd kv"] by (simp add: dumps_item_def encode_basestring_ascii_def)

lemma document_calls_le:
  "document_ok r d \<Longrightarrow> document_calls d \<le> length (join sep (map (dumps_item r) d))"
proof (induction d)
  case Nil
  then show ?case by (simp add: document_calls_def)
next
  case (Cons kv d)
  then have "Suc (value_calls (snd kv)) \<le> length (dumps_item r kv)"
    by (simp add: document_ok_def item_calls_le)
  moreover from Cons have "document_calls d \<le> length (join sep (map (dumps_item r) d))"
    by (simp add: document_ok_def)
  ultimately show ?case by (simp add: document_calls_def join_Cons)
qed

lemma json_valid_dumps:
  assumes "document_ok r d"
  shows "json_valid (json_dumps r d)"
proof (cases d)
  case Nil
  then show ?thesis by (simp add: json_valid_def json_dumps_def skip_ws_simps)
next
  case (Cons kv d')
  define J where "J = join (lit '', '') (map (dumps_item r) d)"
  have ne: "d \<noteq> []" using Cons by simp
  have "document_calls d \<le> length J"
    using document_calls_le[OF assms] by (simp add: J_def)
  then have m: "scan_members (Suc (length J)) (J @ 125 # []) = Some []"
    using scan_members_dumps[OF assms ne, of "Suc (length J)" "[]"] by (simp add: J_def del: scan_simps)
  have sk: "skip_ws (J @ [125]) = J @ [125]"
    by (simp add: J_def Cons join_Cons dumps_item_skip_ws)
  obtain t where hd: "J @ [125] = 34 # t"
    by (simp add: J_def Cons join_Cons dumps_item_def encode_basestring_ascii_def)
  have "scan_value (Suc (Suc (length J))) (123 # J @ [125]) = Some []"
    apply (subst scan_value.simps(2))
    apply (simp add: sk del: scan_simps)
    apply (simp add: hd del: scan_simps)
    apply (simp add: hd[symmetric] m del: scan_simps)
    done
  then show ?thesis
    by (simp add: json_valid_def json_dumps_def J_def[symmetric] skip_ws_simps del: scan_simps)
qed

subsection \<open>The documents of the script\<close>

lemma floatstr_zero: "floatstr r float_zero = lit ''0.0''"
  by (simp add: floatstr_def float_repr_def float_zero_def float_is_nan_def float_inf_def float_neginf_def)

lemma float_ok_zero: "float_ok r float_zero"
  by (simp add: float_ok_def floatstr_zero is_json_number_def scan_number_def scan_sign_def
      scan_int_def scan_frac_def scan_exp_def scan_digits_def is_digit_def lit_def)

text \<open>
  A float is written as a JSON number exactly when it is finite and \<open>float.__repr__\<close>
  gives a number token for it.
\<close>

lemma not_number_names:
  "\<not> is_json_number (lit ''NaN'')" "\<not> is_json_number (lit ''Infinity'')"
  "\<not> is_json_number (lit ''-Infinity'')"
  by (simp_all add: is_json_number_def scan_number_def scan_sign_def scan_int_def lit_def)

lemma float_ok_iff:
  "float_ok r x \<longleftrightarrow> float_is_finite x \<and> is_json_number (float_repr r x)"
  by (auto simp add: float_ok_def floatstr_def float_is_finite_def not_number_names)

lemma list_all_replicate: "P x \<Longrightarrow> list_all P (replicate n x)"
  by (induction n) simp_all

lemma zero_embedding_ok: "list_all (float_ok r) zero_embedding"
  unfolding zero_embedding_def by (rule list_all_replicate) (rule float_ok_zero)

lemma fallback_document_ok: "document_ok r (fallback_document p)"
  by (simp add: document_ok_def fallback_document_def zero_embedding_ok)

lemma error_document_ok: "document_ok r (error_document e)"
  by (simp add: document_ok_def error_document_def zero_embedding_ok)

lemma usage_document_ok: "document_ok r usage_document"
  by (simp add: document_ok_def usage_document_def)

lemma float_nan_not_ok: "\<not> float_ok r float_nan"
  by (simp add: float_ok_def floatstr_def float_nan_def float_is_nan_def is_json_number_def scan_number_def scan_sign_def
      scan_int_def lit_def)

subsection \<open>Line breaks\<close>

lemma hexdigit_ge: "32 \<le> hexdigit d"
  by (simp add: hexdigit_def)

lemma hex4_no_break: "x \<in> set (hex4 n) \<Longrightarrow> 32 \<le> x"
  by (auto simp add: hex4_def hexdigit_ge)

lemma escape_char_no_break: "x \<in> set (escape_char c) \<Longrightarrow> 32 \<le> x"
  by (auto simp add: escape_char_def Let_def split: if_splits dest: hex4_no_break)

lemma encode_no_break: "x \<in> set (encode_basestring_ascii s) \<Longrightarrow> 32 \<le> x"
  by (auto simp add: encode_basestring_ascii_def dest: escape_char_no_break)

lemma in_dropWhile: "x \<in> set s \<Longrightarrow> \<not> P x \<Longrightarrow> x \<in> set (dropWhile P s)"
  by (induction s) auto

lemma scan_digits_keeps: "scan_digits s = Some r \<Longrightarrow> x \<in> set s \<Longrightarrow> x < 32 \<Longrightarrow> x \<in> set r"
  by (cases s) (auto simp add: scan_digits_def is_digit_def in_dropWhile split: if_splits)

lemma scan_int_keeps: "scan_int s = Some r \<Longrightarrow> x \<in> set s \<Longrightarrow> x < 32 \<Longrightarrow> x \<in> set r"
  by (cases s) (auto simp add: scan_int_def is_digit_def in_dropWhile split: if_splits)

lemma scan_frac_keeps: "scan_frac s = Some r \<Longrightarrow> x \<in> set s \<Longrightarrow> x < 32 \<Longrightarrow> x \<in> set r"
  by (cases s) (auto simp add: scan_frac_def split: if_splits dest: scan_digits_keeps)

lemma scan_exp_keeps: "scan_exp s = Some r \<Longrightarrow> x \<in> set s \<Longrightarrow> x < 32 \<Longrightarrow> x \<in> set r"
  by (cases s; cases "tl s")
     (auto simp add: scan_exp_def split: if_splits list.splits dest: scan_digits_keeps)

lemma scan_sign_keeps: "x \<in> set s \<Longrightarrow> x < 32 \<Longrightarrow> x \<in> set (scan_sign s)"
  by (cases s) (auto simp add: scan_sign_def)

lemma number_no_break: "is_json_number t \<Longrightarrow> x \<in> set t \<Longrightarrow> 32 \<le> x"
proof (rule ccontr)
  assume n: "is_json_number t" and x: "x \<in> set t" and "\<not> 32 \<le> x"
  then have lt: "x < 32" by simp
  from n obtain r1 r2 where
    i: "scan_int (scan_sign t) = Some r1" and f: "scan_frac r1 = Some r2" and e: "scan_exp r2 = Some []"
    by (auto simp add: is_json_number_def scan_number_def split: option.splits)
  have "x \<in> set (scan_sign t)" using x lt by (rule scan_sign_keeps)
  with i have "x \<in> set r1" using lt by (rule scan_int_keeps)
  with f have "x \<in> set r2" using lt by (rule scan_frac_keeps)
  with e have "x \<in> set []" using lt by (rule scan_exp_keeps)
  then show False by simp
qed

lemma set_join: "x \<in> set (join sep xs) \<Longrightarrow> x \<in> set sep \<or> (\<exists>y \<in> set xs. x \<in> set y)"
  by (induction sep xs rule: join.induct) auto

lemma dumps_value_no_break: "value_ok r v \<Longrightarrow> x \<in> set (dumps_value r v) \<Longrightarrow> 32 \<le> x"
proof (cases v)
  case (PStr s)
  assume "x \<in> set (dumps_value r v)"
  with PStr show ?thesis by (simp add: encode_no_break)
next
  case (PList xs)
  assume ok: "value_ok r v" and x: "x \<in> set (dumps_value r v)"
  from x PList consider "x = 91" | "x = 93" | "x \<in> set (join (lit '', '') (map (floatstr r) xs))"
    by auto
  then show ?thesis
  proof cases
    case 3
    from set_join[OF 3] consider "x \<in> set (lit '', '')" | y where "y \<in> set xs" "x \<in> set (floatstr r y)"
      by auto
    then show ?thesis
    proof cases
      case 1
      then show ?thesis by (auto simp add: lit_def)
    next
      case 2
      from ok PList 2(1) have "is_json_number (floatstr r y)"
        by (simp add: list_all_iff float_ok_def)
      then show ?thesis using 2(2) by (rule number_no_break)
    qed
  qed simp_all
qed

lemma dumps_item_no_break: "value_ok r (snd kv) \<Longrightarrow> x \<in> set (dumps_item r kv) \<Longrightarrow> 32 \<le> x"
  by (auto simp add: dumps_item_def lit_def dest: encode_no_break dumps_value_no_break)

lemma json_dumps_no_break:
  assumes "document_ok r d" and "x \<in> set (json_dumps r d)"
  shows "32 \<le> x"
proof -
  from assms(2) consider "x = 123" | "x = 125" | "x \<in> set (join (lit '', '') (map (dumps_item r) d))"
    by (auto simp add: json_dumps_def)
  then show ?thesis
  proof cases
    case 3
    from set_join[OF 3] consider "x \<in> set (lit '', '')" | kv where "kv \<in> set d" "x \<in> set (dumps_item r kv)"
      by auto
    then show ?thesis
    proof cases
      case 1
      then show ?thesis by (auto simp add: lit_def)
    next
      case 2
      from assms(1) 2(1) have "value_ok r (snd kv)" by (simp add: document_ok_def list_all_iff)
      then show ?thesis using 2(2) by (rule dumps_item_no_break)
    qed
  qed simp_all
qed

lemma single_line_dumps: "document_ok r d \<Longrightarrow> single_line (json_dumps r d)"
  using json_dumps_no_break[of r d 10] json_dumps_no_break[of r d 13]
  by (auto simp add: single_line_def)

lemma one_json_line_print: "document_ok r d \<Longrightarrow> one_json_line (print_line (json_dumps r d))"
  by (simp add: one_json_line_def print_line_def single_line_dumps json_valid_dumps)

subsection \<open>NaN is not JSON\<close>








section \<open>Properties of the script\<close>

text \<open>
  C10. Arguments after the first are not read, and neither is the script's own name: two
  runs with the same first argument end the same way, with the same output.
\<close>

theorem C10_extra_arguments_ignored:
  "main env (prog # image_path # extra) = main env (prog' # image_path # extra')"
  by (simp add: main_def)

text \<open>
  C8. The imports of torch and PIL are not guarded: when either raises, the script ends
  with that exception uncaught, whatever its arguments, having printed nothing. The
  module sets \<open>HAS_CLIP\<close> to false exactly when torch and PIL import and the import
  of transformers raises an \<open>ImportError\<close>.
\<close>

theorem C8_unguarded_imports:
  "(import_torch env = Some e \<or> (import_torch env = None \<and> import_PIL env = Some e) \<longrightarrow>
      main env argv = \<lparr>stdout = [], stderr = [], calls = [], status = Uncaught e\<rparr>) \<and>
   (snd (load_module env) = Inr False \<longleftrightarrow>
      import_torch env = None \<and> import_PIL env = None \<and>
      (\<exists>e'. import_transformers env = Some e' \<and> is_ImportError e'))"
  by (auto simp add: main_def load_module_def split: option.splits)

theorem C8_witness:
  "main env_no_pil [script, cat_png] =
     \<lparr>stdout = [], stderr = [], calls = [],
      status = Uncaught (ImportError (lit ''No module named PIL''))\<rparr> \<and>
   snd (load_module env_no_pil) \<noteq> Inr False"
  using C8_unguarded_imports [of env_no_pil "ImportError (lit ''No module named PIL'')"
      "[script, cat_png]"]
  by (simp add: env_no_pil_def env_ok_def)

subsection \<open>Runs of the example environments\<close>

lemma main_prints_result:
  "load_module env = (err, Inr h) \<Longrightarrow> process_image env h p = (cs, Inr d) \<Longrightarrow>
     main env (prog # p # extra) =
       \<lparr>stdout = print_line (json_dumps (repr_finite env) d), stderr = err, calls = cs,
        status = Exit 0\<rparr>"
  by (simp add: main_def)


lemma usage_text:
  "json_dumps r usage_document =
     [123, 34] @ lit ''error'' @ [34] @ lit '': '' @ [34] @
       lit ''Usage: clip2_process.py <image_path>'' @ [34, 125]"
  by (simp add: json_dumps_def usage_document_def dumps_item_def encode_basestring_ascii_def
      lit_def escape_char_def)





subsection \<open>The usage error\<close>

text \<open>
  C3, as amended. When the module's imports complete (torch and PIL import, and
  transformers imports or raises \<open>ImportError\<close>) and fewer than two elements are in
  \<open>sys.argv\<close>, the script prints nothing on standard output, writes the JSON object
  \<open>{"error": "Usage: clip2_process.py <image_path>"}\<close> as the last line of standard
  error (after the warning, if transformers is missing) and exits with code 1.
\<close>

theorem C3_usage_error:
  assumes "load_module env = (err, Inr HAS_CLIP)" and "length argv < 2"
  shows "main env argv =
           \<lparr>stdout = [],
            stderr = err @ print_line ([123, 34] @ lit ''error'' @ [34] @ lit '': '' @ [34] @
                       lit ''Usage: clip2_process.py <image_path>'' @ [34, 125]),
            calls = [], status = Exit 1\<rparr> \<and>
         (err = [] \<or> err = print_line warning) \<and>
         json_valid ([123, 34] @ lit ''error'' @ [34] @ lit '': '' @ [34] @
                       lit ''Usage: clip2_process.py <image_path>'' @ [34, 125])"
proof -
  have "json_valid (json_dumps (repr_finite env) usage_document)"
    using usage_document_ok by (rule json_valid_dumps)
  then have v: "json_valid ([123, 34] @ lit ''error'' @ [34] @ lit '': '' @ [34] @
                       lit ''Usage: clip2_process.py <image_path>'' @ [34, 125])"
    by (simp only: usage_text)
  have m: "main env argv =
           \<lparr>stdout = [],
            stderr = err @ print_line (json_dumps (repr_finite env) usage_document),
            calls = [], status = Exit 1\<rparr>"
    using assms by (simp add: main_def)
  from load_module_cases[OF assms(1)] have e: "err = [] \<or> err = print_line warning" by blast
  show ?thesis using v e m[unfolded usage_text] by blast
qed

text \<open>transformers is missing and no path is given: the warning, then the usage error.\<close>

theorem C3_witness:
  "main env_no_clip [script] =
     \<lparr>stdout = [],
      stderr = print_line warning @
               print_line ([123, 34] @ lit ''error'' @ [34] @ lit '': '' @ [34] @
                       lit ''Usage: clip2_process.py <image_path>'' @ [34, 125]),
      calls = [], status = Exit 1\<rparr>"
proof -
  have l: "load_module env_no_clip = (print_line warning, Inr False)"
    by (simp add: load_module_def env_no_clip_def env_ok_def)
  show ?thesis using C3_usage_error [OF l, of "[script]"] by simp
qed

text \<open>
  C3 as stated fails when torch is not installed: the import at line 9 raises before line
  62 is reached, and the script writes no JSON object at all.
\<close>

theorem C3_counterexample:
  "main env_no_torch [script] =
     \<lparr>stdout = [], stderr = [], calls = [],
      status = Uncaught (ImportError (lit ''No module named torch''))\<rparr>"
  by (simp add: main_def load_module_def env_no_torch_def env_ok_def)

subsection \<open>The result on standard output\<close>

text \<open>
  C6, as amended. When the module's imports complete, a path is given and
  \<open>process_image\<close> returns, the script prints the returned document once, with
  \<open>json.dumps\<close> and a newline, on standard output and exits with code 0; standard
  error holds nothing or the warning about transformers. The printed text is exactly one
  line of JSON when every float of the document is written as a JSON number.
\<close>

theorem C6_one_result_line:
  assumes "load_module env = (err, Inr HAS_CLIP)"
    and "process_image env HAS_CLIP image_path = (cs, Inr result)"
  shows "main env (prog # image_path # extra) =
           \<lparr>stdout = print_line (json_dumps (repr_finite env) result),
            stderr = err, calls = cs, status = Exit 0\<rparr> \<and>
         (err = [] \<or> err = print_line warning) \<and>
         (document_ok (repr_finite env) result \<longrightarrow>
            one_json_line (stdout (main env (prog # image_path # extra))))"
proof -
  have m: "main env (prog # image_path # extra) =
           \<lparr>stdout = print_line (json_dumps (repr_finite env) result),
            stderr = err, calls = cs, status = Exit 0\<rparr>"
    using assms by (rule main_prints_result)
  from load_module_cases[OF assms(1)] have e: "err = [] \<or> err = print_line warning" by blast
  have "document_ok (repr_finite env) result \<longrightarrow>
            one_json_line (stdout (main env (prog # image_path # extra)))"
    by (simp add: m one_json_line_print)
  with m e show ?thesis by blast
qed

text \<open>transformers is missing: the placeholder on standard output, the warning on standard error.\<close>

theorem C6_witness:
  "main env_no_clip [script, cat_png] =
     \<lparr>stdout = print_line (json_dumps (repr_finite env_no_clip) (fallback_document cat_png)),
      stderr = print_line warning, calls = [], status = Exit 0\<rparr> \<and>
   one_json_line (stdout (main env_no_clip [script, cat_png]))"
proof -
  have l: "load_module env_no_clip = (print_line warning, Inr False)"
    by (simp add: load_module_def env_no_clip_def env_ok_def)
  have p: "process_image env_no_clip False cat_png = ([], Inr (fallback_document cat_png))"
    by (simp add: process_image_def return_io_def)
  show ?thesis
    using C6_one_result_line [OF l p, of script "[]"] fallback_document_ok
    by blast
qed

text \<open>
  C6 as stated fails when torch is not installed: a path is given, and the script ends
  at line 9 with nothing on standard output.
\<close>

theorem C6_counterexample:
  "main env_no_torch [script, cat_png] =
     \<lparr>stdout = [], stderr = [], calls = [],
      status = Uncaught (ImportError (lit ''No module named torch''))\<rparr>"
  by (simp add: main_def load_module_def env_no_torch_def env_ok_def)




end
